theory Spec2Isabelle
  imports Complex_Main "HOL-Library.Sublist" "HOL-Library.AList"
begin

section \<open>Python values used by \<open>electronics_value_parser.py\<close>\<close>

text \<open>
  The module works on Python text strings (\<open>unicode_literals\<close> is in force), whose
  elements are Unicode code points: \<open>value[-1]\<close> is one code point and \<open>len\<close>
  counts code points. A string is therefore a list of code points, each a natural number.
  ASCII text is written with \<open>ustr\<close>; the four non-ASCII symbols of the tables are
  given by their code points.
\<close>

type_synonym ustring = "nat list"

definition ustr :: "string \<Rightarrow> ustring" where
  "ustr s = map of_char s"

text \<open>
  A Python \<open>float\<close>. The magnitude of a finite float is modelled by the exact rational
  it denotes, and products are exact: binary64 rounding, overflow and the sign of zero are
  not modelled. The two infinities and NaN are values of their own, since \<open>float\<close>
  accepts their spellings.
\<close>

datatype pyfloat = Fin rat | PInf | NInf | NaN

text \<open>The exceptions the function can raise on a string or a number.\<close>

datatype error = ValueError | IndexError

text \<open>The argument of \<open>value_parser\<close>: a string, or a value that is already a number.\<close>

datatype pyvalue = Str ustring | Num pyfloat

subsection \<open>String methods\<close>

text \<open>\<open>str.isspace\<close> on one code point: the characters \<open>str.strip()\<close> removes.\<close>

definition isspace :: "nat \<Rightarrow> bool" where
  "isspace c \<longleftrightarrow>
     (0x09 \<le> c \<and> c \<le> 0x0D) \<or> (0x1C \<le> c \<and> c \<le> 0x20) \<or> c = 0x85 \<or> c = 0xA0 \<or>
     c = 0x1680 \<or> (0x2000 \<le> c \<and> c \<le> 0x200A) \<or> c = 0x2028 \<or> c = 0x2029 \<or>
     c = 0x202F \<or> c = 0x205F \<or> c = 0x3000"

definition strip :: "ustring \<Rightarrow> ustring" where
  "strip s = rev (dropWhile isspace (rev (dropWhile isspace s)))"

text \<open>\<open>s.endswith(t)\<close>.\<close>

definition endswith :: "ustring \<Rightarrow> ustring \<Rightarrow> bool" where
  "endswith s t \<longleftrightarrow> length t \<le> length s \<and> drop (length s - length t) s = t"

text \<open>The slice \<open>s[:-n]\<close>; for \<open>n = 0\<close> Python reads it as \<open>s[:0]\<close>.\<close>

definition slice_to_neg :: "ustring \<Rightarrow> nat \<Rightarrow> ustring" where
  "slice_to_neg s n = (if n = 0 then [] else take (length s - n) s)"

text \<open>\<open>t in s\<close> for strings: \<open>t\<close> occurs in \<open>s\<close> as a contiguous substring.\<close>

fun contains :: "ustring \<Rightarrow> ustring \<Rightarrow> bool" where
  "contains [] t = (t = [])"
| "contains (c # cs) t = (prefix t (c # cs) \<or> contains cs t)"

text \<open>
  \<open>s.split(sep)\<close> for a non-empty separator: the pieces between the non-overlapping
  occurrences of \<open>sep\<close>, found from the left. \<open>acc\<close> holds the current piece reversed.
  (Python raises on an empty separator; every key of the tables is non-empty.)
\<close>

fun split_from :: "ustring \<Rightarrow> ustring \<Rightarrow> ustring \<Rightarrow> ustring list" where
  "split_from sep acc [] = [rev acc]"
| "split_from sep acc (c # cs) =
     (if sep \<noteq> [] \<and> prefix sep (c # cs)
      then rev acc # split_from sep [] (drop (length sep - 1) cs)
      else split_from sep (c # acc) cs)"

definition split :: "ustring \<Rightarrow> ustring \<Rightarrow> ustring list" where
  "split s sep = split_from sep [] s"

subsection \<open>The builtin \<open>float\<close>\<close>

text \<open>
  \<open>float(s)\<close> on a string follows the grammar of the language reference:
  optional surrounding whitespace, an optional sign, then \<open>inf\<close>, \<open>infinity\<close> or
  \<open>nan\<close> in any case, or a decimal number with an optional exponent, where groups of
  digits may be separated by single underscores. Only the ASCII digits are modelled.
  The result is \<open>None\<close> where Python raises \<open>ValueError\<close>.

  The whitespace \<open>float\<close> removes is that of \<open>str.strip()\<close> without the four
  ASCII separators U+001C to U+001F, which \<open>float\<close> refuses.
\<close>

definition float_space :: "nat \<Rightarrow> bool" where
  "float_space c \<longleftrightarrow> isspace c \<and> \<not> (0x1C \<le> c \<and> c \<le> 0x1F)"

definition float_strip :: "ustring \<Rightarrow> ustring" where
  "float_strip s = rev (dropWhile float_space (rev (dropWhile float_space s)))"

definition is_digit :: "nat \<Rightarrow> bool" where
  "is_digit c \<longleftrightarrow> 48 \<le> c \<and> c \<le> 57"

text \<open>\<open>digitpart ::= digit (["_"] digit)*\<close>\<close>

fun digitpart :: "ustring \<Rightarrow> bool" where
  "digitpart [] = False"
| "digitpart [c] = is_digit c"
| "digitpart (c # d # cs) =
     (is_digit c \<and> (if d = 95 then digitpart cs else digitpart (d # cs)))"

definition digits_val :: "ustring \<Rightarrow> nat" where
  "digits_val s = foldl (\<lambda>n c. 10 * n + (c - 48)) 0 (filter is_digit s)"

definition is_exp_mark :: "nat \<Rightarrow> bool" where
  "is_exp_mark c \<longleftrightarrow> c = 101 \<or> c = 69"

definition is_sign :: "nat \<Rightarrow> bool" where
  "is_sign c \<longleftrightarrow> c = 43 \<or> c = 45"

text \<open>\<open>exponent ::= ("e" | "E") [sign] digitpart\<close>, given the text after the mark.\<close>

definition exponent :: "ustring \<Rightarrow> int option" where
  "exponent s =
     (case s of
        [] \<Rightarrow> None
      | c # cs \<Rightarrow>
          (let ds = (if is_sign c then cs else s)
           in if digitpart ds
              then Some (if c = 45 then - int (digits_val ds) else int (digits_val ds))
              else None))"

text \<open>\<open>number ::= [digitpart] "." digitpart | digitpart ["."]\<close>\<close>

definition number :: "ustring \<Rightarrow> rat option" where
  "number s =
     (let ip = takeWhile (\<lambda>c. c \<noteq> 46) s;
          fp = drop (length ip + 1) s
      in if (if ip = [] then digitpart fp
             else digitpart ip \<and> (fp = [] \<or> digitpart fp))
         then Some (of_nat (digits_val (ip @ fp)) / 10 ^ length (filter is_digit fp))
         else None)"

definition scale10 :: "rat \<Rightarrow> int \<Rightarrow> rat" where
  "scale10 q e = (if e < 0 then q / 10 ^ nat (- e) else q * 10 ^ nat e)"

text \<open>\<open>floatnumber ::= number [exponent]\<close>\<close>

definition floatnumber :: "ustring \<Rightarrow> rat option" where
  "floatnumber s =
     (let m = takeWhile (\<lambda>c. \<not> is_exp_mark c) s;
          r = dropWhile (\<lambda>c. \<not> is_exp_mark c) s
      in case number m of
           None \<Rightarrow> None
         | Some q \<Rightarrow>
             (if r = [] then Some q
              else case exponent (tl r) of
                     None \<Rightarrow> None
                   | Some e \<Rightarrow> Some (scale10 q e)))"

definition lower :: "nat \<Rightarrow> nat" where
  "lower c = (if 65 \<le> c \<and> c \<le> 90 then c + 32 else c)"

definition float_str :: "ustring \<Rightarrow> pyfloat option" where
  "float_str s =
     (let t = float_strip s;
          neg = (case t of [] \<Rightarrow> False | c # _ \<Rightarrow> c = 45);
          body = (case t of [] \<Rightarrow> [] | c # cs \<Rightarrow> if is_sign c then cs else t);
          low = map lower body
      in if low = ustr ''inf'' \<or> low = ustr ''infinity''
         then Some (if neg then NInf else PInf)
         else if low = ustr ''nan'' then Some NaN
         else case floatnumber body of
                None \<Rightarrow> None
              | Some q \<Rightarrow> Some (Fin (if neg then - q else q)))"

text \<open>\<open>float(value)\<close>: a number is converted as it is, a string is parsed.\<close>

fun float :: "pyvalue \<Rightarrow> pyfloat option" where
  "float (Num x) = Some x"
| "float (Str s) = float_str s"

text \<open>\<open>x * mul\<close> for a float and a multiplier of the tables.\<close>

fun fmul :: "pyfloat \<Rightarrow> rat \<Rightarrow> pyfloat" where
  "fmul (Fin x) m = Fin (x * m)"
| "fmul PInf m = (if 0 < m then PInf else if m < 0 then NInf else NaN)"
| "fmul NInf m = (if 0 < m then NInf else if m < 0 then PInf else NaN)"
| "fmul NaN m = NaN"

section \<open>The lookup tables\<close>

text \<open>
  A \<open>dict\<close> iterates in insertion order, so each table is the association list of its
  items in the order the source writes them.
\<close>

definition prefixes :: "(ustring \<times> rat) list" where
  "prefixes =
    [(ustr ''Y'', 10 ^ 24),
     (ustr ''Z'', 10 ^ 21),
     (ustr ''E'', 10 ^ 18),
     (ustr ''P'', 10 ^ 15),
     (ustr ''T'', 10 ^ 12),
     (ustr ''G'', 10 ^ 9),
     (ustr ''M'', 10 ^ 6),
     (ustr ''MEG'', 10 ^ 6),
     (ustr ''Meg'', 10 ^ 6),
     (ustr ''k'', 10 ^ 3),
     (ustr ''K'', 10 ^ 3),
     (ustr ''m'', 1 / 10 ^ 3),
     (ustr ''u'', 1 / 10 ^ 6),
     ([0x03BC], 1 / 10 ^ 6),
     ([0x00B5], 1 / 10 ^ 6),
     (ustr ''n'', 1 / 10 ^ 9),
     (ustr ''p'', 1 / 10 ^ 12),
     (ustr ''f'', 1 / 10 ^ 15),
     (ustr ''a'', 1 / 10 ^ 18),
     (ustr ''z'', 1 / 10 ^ 21),
     (ustr ''y'', 1 / 10 ^ 24)]"

text \<open>\<open>infixes = prefixes.copy(); infixes.update({'R': 1})\<close>\<close>

definition infixes :: "(ustring \<times> rat) list" where
  "infixes = AList.update (ustr ''R'') 1 prefixes"

definition units :: "(ustring \<times> string) list" where
  "units =
    [(ustr ''R'', ''ohm''),
     ([0x2126], ''ohm''),
     ([0x03A9], ''ohm''),
     (ustr ''ohm'', ''ohm''),
     (ustr ''F'', ''farad''),
     (ustr ''H'', ''henry''),
     (ustr ''V'', ''volt''),
     (ustr ''A'', ''ampere''),
     (ustr ''W'', ''watt''),
     (ustr ''Hz'', ''hertz''),
     (ustr ''C'', ''coulomb''),
     (ustr ''S'', ''siemen'')]"

section \<open>\<open>value_parser\<close>\<close>

text \<open>
  The loop \<open>for test_unit in units: if value.endswith(test_unit): ... break\<close> with its
  \<open>else\<close> branch, over the items of a table: the first symbol of the table that ends
  the string is removed, the rest is stripped, and the unit is the symbol's entry.
  The result is the new \<open>value\<close> and \<open>unit\<close>.
\<close>

fun scan_units :: "(ustring \<times> string) list \<Rightarrow> ustring \<Rightarrow> ustring \<times> string option" where
  "scan_units [] v = (v, None)"
| "scan_units ((test_unit, name) # rest) v =
     (if endswith v test_unit
      then (strip (slice_to_neg v (length test_unit)), Some name)
      else scan_units rest v)"

text \<open>
  The loop \<open>for test_inf in infixes: if test_inf in value: ... break\<close> with its
  \<open>else\<close> branch: the new \<open>value\<close> and \<open>mul\<close>. \<open>parts[1]\<close> raises
  \<open>IndexError\<close> on a list shorter than two.
\<close>

fun scan_infixes :: "(ustring \<times> rat) list \<Rightarrow> ustring \<Rightarrow> error + ustring \<times> rat" where
  "scan_infixes [] v = Inr (v, 1)"
| "scan_infixes ((test_inf, m) # rest) v =
     (if contains v test_inf
      then (case split v test_inf of
              p0 # p1 # _ \<Rightarrow> Inr (p0 @ ustr ''.'' @ p1, m)
            | _ \<Rightarrow> Inl IndexError)
      else scan_infixes rest v)"

text \<open>
  The statement \<open>if value[-1] in prefixes: ... else: ...\<close> on the string left after the
  units: \<open>value[-1]\<close> raises \<open>IndexError\<close> on the empty string.
\<close>

definition resolve :: "ustring \<Rightarrow> error + ustring \<times> rat" where
  "resolve v =
     (if v = [] then Inl IndexError
      else case map_of prefixes [last v] of
             Some m \<Rightarrow> Inr (butlast v, m)
           | None \<Rightarrow> scan_infixes infixes v)"

text \<open>
  The last statement of the branch, \<open>value = float(value) * mul\<close>, on the literal and
  multiplier that \<open>resolve\<close> leaves: the magnitude of the string left after the units.
\<close>

definition magnitude :: "ustring \<Rightarrow> error + pyfloat" where
  "magnitude v =
     (case resolve v of
        Inl e \<Rightarrow> Inl e
      | Inr (lit, m) \<Rightarrow>
          (case float_str lit of
             None \<Rightarrow> Inl ValueError
           | Some x \<Rightarrow> Inr (fmul x m)))"

text \<open>The \<open>except ValueError\<close> branch, run on a string \<open>float\<close> has refused.\<close>

definition parse_label :: "ustring \<Rightarrow> error + pyfloat \<times> string option" where
  "parse_label s =
     (case scan_units units s of
        (v, unit) \<Rightarrow>
          (case magnitude v of
             Inl e \<Rightarrow> Inl e
           | Inr x \<Rightarrow> Inr (x, unit)))"

fun value_parser :: "pyvalue \<Rightarrow> error + pyfloat \<times> string option" where
  "value_parser (Num x) = Inr (x, None)"
| "value_parser (Str s) =
     (case float_str s of
        Some x \<Rightarrow> Inr (x, None)
      | None \<Rightarrow> parse_label s)"

text \<open>
  The split the specification describes: at the first occurrence of \<open>sep\<close> only, into
  the text before it and everything after it (\<open>None\<close> when \<open>sep\<close> does not occur).
\<close>

fun first_split_from :: "ustring \<Rightarrow> ustring \<Rightarrow> ustring \<Rightarrow> (ustring \<times> ustring) option" where
  "first_split_from sep acc [] = None"
| "first_split_from sep acc (c # cs) =
     (if prefix sep (c # cs)
      then Some (rev acc, drop (length sep - 1) cs)
      else first_split_from sep (c # acc) cs)"

definition first_split :: "ustring \<Rightarrow> ustring \<Rightarrow> (ustring \<times> ustring) option" where
  "first_split s sep = first_split_from sep [] s"

text \<open>
  The first matching key of the specification: the first item of \<open>infixes\<close>, in table
  order, whose key occurs in the string.
\<close>

definition first_infix :: "ustring \<Rightarrow> (ustring \<times> rat) option" where
  "first_infix v = find (\<lambda>(k, m). contains v k) infixes"




section \<open>Evaluation on concrete labels\<close>

lemmas parser_defs =
  ustr_def isspace_def strip_def float_space_def float_strip_def endswith_def slice_to_neg_def split_def
  is_digit_def digits_val_def is_exp_mark_def is_sign_def exponent_def number_def scale10_def
  floatnumber_def lower_def float_str_def prefixes_def infixes_def units_def resolve_def
  magnitude_def parse_label_def first_split_def first_infix_def Let_def

text \<open>
  C7: \<open>3R3\<close> parses to exactly 3.3 with no unit: the \<open>R\<close> is taken as an infix with
  multiplier 1, and the result is not 3.3 ohm.
\<close>

theorem bare_infix_R_has_no_unit:
  "value_parser (Str (ustr ''3R3'')) = Inr (Fin (33 / 10), None) \<and>
   value_parser (Str (ustr ''3R3'')) \<noteq> Inr (Fin (33 / 10), Some ''ohm'')"
  by (simp add: parser_defs)

text \<open>
  C9: in \<open>1E3V\<close> the unit \<open>V\<close> is stripped and the \<open>E\<close> of the remainder
  \<open>1E3\<close> is taken as the infix exa, so the result is 1.3e18 volt: neither 1000 volt nor
  a failure.
\<close>

theorem uppercase_E_taken_as_exa:
  "value_parser (Str (ustr ''1E3V'')) = Inr (Fin (13 / 10 * 10 ^ 18), Some ''volt'') \<and>
   value_parser (Str (ustr ''1E3V'')) \<noteq> Inr (Fin 1000, Some ''volt'') \<and>
   scan_units units (ustr ''1E3V'') = (ustr ''1E3'', Some ''volt'') \<and>
   resolve (ustr ''1E3'') = Inr (ustr ''1.3'', 10 ^ 18)"
  by (simp add: parser_defs)

text \<open>
  C2: on the empty string \<open>float\<close> raises \<open>ValueError\<close>, no unit matches, and
  \<open>value[-1]\<close> then raises \<open>IndexError\<close>, which the function does not catch; the same
  happens on a lone unit symbol. The digit-free label made of \<open>k\<close> and the ohm sign
  fails with \<open>ValueError\<close>.
\<close>

theorem empty_string_raises_IndexError:
  "value_parser (Str []) = Inl IndexError \<and>
   value_parser (Str [0x2126]) = Inl IndexError \<and>
   value_parser (Str (ustr ''k'' @ [0x2126])) = Inl ValueError"
  by (simp add: parser_defs)

text \<open>
  C5: the keys \<open>MEG\<close> and \<open>Meg\<close> of the prefix table are never recognised at the end
  of a label, because only the last character is looked up: in \<open>3MEG\<close> the \<open>G\<close> is
  taken as giga and \<open>3ME\<close> is not a number. The one-character keys work:
  \<open>3k\<close> and \<open>3K\<close> give 3000, \<open>10u\<close> and both micro signs give 1e-5.
\<close>

theorem trailing_MEG_raises_ValueError:
  "value_parser (Str (ustr ''3MEG'')) = Inl ValueError \<and>
   resolve (ustr ''3MEG'') = Inr (ustr ''3ME'', 10 ^ 9) \<and>
   value_parser (Str (ustr ''3Meg'')) = Inl ValueError \<and>
   value_parser (Str (ustr ''3k'')) = Inr (Fin 3000, None) \<and>
   value_parser (Str (ustr ''3K'')) = Inr (Fin 3000, None) \<and>
   value_parser (Str (ustr ''10u'')) = Inr (Fin (1 / 10 ^ 5), None) \<and>
   value_parser (Str (ustr ''10'' @ [0x03BC])) = Inr (Fin (1 / 10 ^ 5), None) \<and>
   value_parser (Str (ustr ''10'' @ [0x00B5])) = Inr (Fin (1 / 10 ^ 5), None)"
  by (simp add: parser_defs)

section \<open>The fast path\<close>

text \<open>
  C8: whenever \<open>float\<close> accepts the argument, a number or a string that is a plain
  numeric literal (an integer, a decimal, exponent notation), \<open>value_parser\<close> returns
  exactly that number with no unit; the unit, prefix and infix stages play no part.
\<close>

theorem fast_path: "float v = Some x \<Longrightarrow> value_parser v = Inr (x, None)"
  by (cases v) simp_all

theorem fast_path_witness:
  "float (Str (ustr ''9.83652e-05'')) = Some (Fin (983652 / 10 ^ 10)) \<and>
   value_parser (Str (ustr ''9.83652e-05'')) = Inr (Fin (983652 / 10 ^ 10), None)"
proof -
  have h: "float (Str (ustr ''9.83652e-05'')) = Some (Fin (983652 / 10 ^ 10))"
    by (simp add: parser_defs)
  from fast_path[OF h] h show ?thesis by simp
qed

section \<open>The unit scan\<close>

text \<open>\<open>endswith\<close> is the suffix relation on lists.\<close>

lemma endswith_suffix: "endswith s t \<longleftrightarrow> suffix t s"
proof
  assume "endswith s t"
  then have "s = take (length s - length t) s @ t"
    by (metis append_take_drop_id endswith_def)
  then show "suffix t s" by (metis suffixI)
next
  assume "suffix t s"
  then obtain zs where "s = zs @ t" by (auto simp: suffix_def)
  then show "endswith s t" by (simp add: endswith_def)
qed

lemma units_unrelated:
  "\<forall>(s, n)\<in>set units. \<forall>(t, m)\<in>set units. endswith t s \<longrightarrow> s = t \<and> n = m"
  by (simp add: units_def ustr_def endswith_def)

lemma units_one_match:
  assumes "(s, n) \<in> set units" "(t, m) \<in> set units" "endswith v s" "endswith v t"
  shows "s = t \<and> n = m"
proof -
  from assms(3,4) have "suffix s v" "suffix t v" by (simp_all add: endswith_suffix)
  then have "suffix s t \<or> suffix t s" by (rule suffix_same_cases)
  then have "endswith t s \<or> endswith s t" by (simp add: endswith_suffix)
  with units_unrelated assms(1,2) show ?thesis by fastforce
qed

lemma scan_units_match:
  assumes "set tbl \<subseteq> set units" "(s, n) \<in> set tbl" "endswith v s"
  shows "scan_units tbl v = (strip (slice_to_neg v (length s)), Some n)"
  using assms
proof (induction tbl)
  case Nil
  then show ?case by simp
next
  case (Cons e tbl)
  obtain t m where e: "e = (t, m)" by (cases e)
  show ?case
  proof (cases "endswith v t")
    case True
    have "(t, m) \<in> set units" using Cons.prems(1) e by simp
    moreover have "(s, n) \<in> set units" using Cons.prems(1,2) by auto
    ultimately have "t = s \<and> m = n" using units_one_match True Cons.prems(3) by blast
    then show ?thesis using True e by simp
  next
    case False
    then have "(s, n) \<in> set tbl" using Cons.prems(2,3) e by auto
    then show ?thesis using Cons False e by simp
  qed
qed

lemma scan_units_no_match:
  "(\<forall>(t, m)\<in>set tbl. \<not> endswith v t) \<Longrightarrow> scan_units tbl v = (v, None)"
  by (induction tbl) auto

lemma scan_units_order:
  assumes "set tbl = set units"
  shows "scan_units tbl v = scan_units units v"
proof (cases "\<exists>(s, n)\<in>set units. endswith v s")
  case True
  then obtain s n where sn: "(s, n) \<in> set units" "endswith v s" by auto
  have "scan_units tbl v = (strip (slice_to_neg v (length s)), Some n)"
    using scan_units_match[of tbl s n v] sn assms by simp
  moreover have "scan_units units v = (strip (slice_to_neg v (length s)), Some n)"
    using scan_units_match[of units s n v] sn by simp
  ultimately show ?thesis by simp
next
  case False
  then have "\<forall>(t, m)\<in>set units. \<not> endswith v t" by auto
  then show ?thesis using scan_units_no_match[of tbl v] scan_units_no_match[of units v] assms by simp
qed

lemma hz_in_units: "(ustr ''Hz'', ''hertz'') \<in> set units"
  by (simp add: units_def)

lemma units_longest:
  assumes "(s, n) \<in> set units" "endswith v s" "(t, m) \<in> set units" "endswith v t"
  shows "length t \<le> length s"
  using units_one_match[OF assms(1) assms(3) assms(2) assms(4)] by simp

text \<open>
  C3: whatever the order in which the unit table is iterated, the symbol the scan removes is
  a longest unit symbol that ends the string (no unit symbol ending the string is longer),
  the rest is what remains stripped, and no unit is recorded only when no symbol ends the
  string. In particular a string ending in \<open>Hz\<close> always gets the unit hertz, never henry.
\<close>

theorem unit_scan_takes_longest_symbol:
  assumes "set tbl = set units" and "scan_units tbl v = (r, u)"
  shows "(case u of
            None \<Rightarrow> (\<forall>(t, n)\<in>set units. \<not> endswith v t) \<and> r = v
          | Some name \<Rightarrow>
              (\<exists>s. (s, name) \<in> set units \<and> endswith v s \<and>
                   r = strip (slice_to_neg v (length s)) \<and>
                   (\<forall>(t, n)\<in>set units. endswith v t \<longrightarrow> length t \<le> length s))) \<and>
         (endswith v (ustr ''Hz'') \<longrightarrow> u = Some ''hertz'' \<and> r = strip (slice_to_neg v (length (ustr ''Hz''))))"
proof (cases "\<exists>(s, n)\<in>set units. endswith v s")
  case True
  then obtain s n where sn: "(s, n) \<in> set units" "endswith v s" by auto
  have "scan_units tbl v = (strip (slice_to_neg v (length s)), Some n)"
    using scan_units_match[of tbl s n v] sn assms(1) by simp
  with assms(2) have ru: "r = strip (slice_to_neg v (length s))" "u = Some n" by simp_all
  have longest: "\<forall>(t, m)\<in>set units. endswith v t \<longrightarrow> length t \<le> length s"
    using units_longest[OF sn] by auto
  have hz: "u = Some ''hertz'' \<and> r = strip (slice_to_neg v (length (ustr ''Hz'')))" if "endswith v (ustr ''Hz'')"
  proof -
    from units_one_match[OF sn(1) hz_in_units sn(2) that]
    have "s = ustr ''Hz''" "n = ''hertz''" by simp_all
    with ru show ?thesis by simp
  qed
  from sn ru longest hz show ?thesis by auto
next
  case False
  then have none: "\<forall>(t, m)\<in>set units. \<not> endswith v t" by auto
  then have "scan_units tbl v = (v, None)"
    using scan_units_no_match[of tbl v] assms(1) by simp
  with assms(2) have "r = v" "u = None" by simp_all
  moreover have "\<not> endswith v (ustr ''Hz'')" using none hz_in_units by auto
  ultimately show ?thesis using none by simp
qed

theorem unit_scan_takes_longest_symbol_witness:
  "set (rev units) = set units \<and>
   scan_units (rev units) (ustr ''50Hz'') = (ustr ''50'', Some ''hertz'') \<and>
   (\<exists>s. (s, ''hertz'') \<in> set units \<and> endswith (ustr ''50Hz'') s \<and>
        ustr ''50'' = strip (slice_to_neg (ustr ''50Hz'') (length s)) \<and>
        (\<forall>(t, n)\<in>set units. endswith (ustr ''50Hz'') t \<longrightarrow> length t \<le> length s))"
proof -
  have h1: "set (rev units) = set units" by simp
  have h2: "scan_units (rev units) (ustr ''50Hz'') = (ustr ''50'', Some ''hertz'')"
    by (simp add: parser_defs)
  from unit_scan_takes_longest_symbol[OF h1 h2] h1 h2 show ?thesis by simp
qed

text \<open>
  C10: no unit symbol is a suffix of another unit symbol, so at most one unit symbol ends any
  given string; hence the scan gives the same result for every iteration order of the table,
  and the first symbol that matches is also the longest one that matches.
\<close>

theorem units_suffix_free:
  "(\<forall>(s, n)\<in>set units. \<forall>(t, m)\<in>set units. suffix s t \<longrightarrow> s = t) \<and>
   (\<forall>(s, n)\<in>set units. \<forall>(t, m)\<in>set units.
      endswith v s \<and> endswith v t \<longrightarrow> s = t \<and> n = m) \<and>
   (set tbl = set units \<longrightarrow> scan_units tbl v = scan_units units v) \<and>
   (\<forall>(s, n)\<in>set units. endswith v s \<longrightarrow>
      scan_units units v = (strip (slice_to_neg v (length s)), Some n) \<and>
      (\<forall>(t, m)\<in>set units. endswith v t \<longrightarrow> length t \<le> length s))"
proof -
  have a: "\<forall>(s, n)\<in>set units. \<forall>(t, m)\<in>set units. suffix s t \<longrightarrow> s = t"
    using units_unrelated by (auto simp: endswith_suffix)
  have b: "\<forall>(s, n)\<in>set units. \<forall>(t, m)\<in>set units.
      endswith v s \<and> endswith v t \<longrightarrow> s = t \<and> n = m"
    using units_one_match by blast
  have c: "set tbl = set units \<longrightarrow> scan_units tbl v = scan_units units v"
    using scan_units_order by blast
  have d: "\<forall>(s, n)\<in>set units. endswith v s \<longrightarrow>
      scan_units units v = (strip (slice_to_neg v (length s)), Some n) \<and>
      (\<forall>(t, m)\<in>set units. endswith v t \<longrightarrow> length t \<le> length s)"
    using scan_units_match[of units _ _ v] units_longest[of _ _ v] by fastforce
  from a b c d show ?thesis by blast
qed

theorem units_suffix_free_witness:
  "set (rev units) = set units \<and>
   scan_units (rev units) (ustr ''50Hz'') = scan_units units (ustr ''50Hz'') \<and>
   (ustr ''Hz'', ''hertz'') \<in> set units \<and> endswith (ustr ''50Hz'') (ustr ''Hz'') \<and>
   scan_units units (ustr ''50Hz'') = (ustr ''50'', Some ''hertz'') \<and>
   \<not> endswith (ustr ''50Hz'') (ustr ''H'')"
proof -
  have h1: "set (rev units) = set units" by simp
  have h2: "(ustr ''Hz'', ''hertz'') \<in> set units" by (simp add: units_def)
  have h3: "endswith (ustr ''50Hz'') (ustr ''Hz'')" by (simp add: parser_defs)
  have h4: "(ustr ''H'', ''henry'') \<in> set units" by (simp add: units_def)
  have h5: "ustr ''H'' \<noteq> ustr ''Hz''" by (simp add: ustr_def)
  have h6: "strip (slice_to_neg (ustr ''50Hz'') (length (ustr ''Hz''))) = ustr ''50''"
    by (simp add: parser_defs)
  from units_suffix_free[of "ustr ''50Hz''" "rev units"] h1 h2 h3 h4 h5 h6
  show ?thesis by fastforce
qed

subsection \<open>Whitespace around the unit symbol\<close>

lemma strip_append_space:
  assumes ws: "\<forall>c\<in>set ws. isspace c"
  shows "strip (body @ ws) = strip body"
proof (cases "\<forall>c\<in>set body. isspace c")
  case True
  then have a: "dropWhile isspace body = []" by simp
  from True ws have b: "dropWhile isspace (body @ ws) = []" by auto
  show ?thesis by (simp only: strip_def a b)
next
  case False
  then obtain c where "c \<in> set body" "\<not> isspace c" by auto
  then have "dropWhile isspace (body @ ws) = dropWhile isspace body @ ws"
    by (rule dropWhile_append1)
  moreover have "dropWhile isspace (rev ws @ ys) = dropWhile isspace ys" for ys
    by (rule dropWhile_append2) (use ws in simp)
  ultimately show ?thesis by (simp add: strip_def)
qed

lemma endswith_last: "endswith v t \<Longrightarrow> t \<noteq> [] \<Longrightarrow> last v = last t"
  by (auto simp: endswith_suffix suffix_def)

lemma units_last_not_space: "\<forall>(t, m)\<in>set units. t \<noteq> [] \<and> \<not> isspace (last t)"
  by (simp add: units_def ustr_def isspace_def)

lemma units_keys_nonempty: "(t, m) \<in> set units \<Longrightarrow> t \<noteq> []"
  using units_last_not_space by auto

text \<open>
  C6, as stated, fails: the scan tests the string as it is given, not a trimmed copy, so a
  label with whitespace after the unit symbol keeps its unit symbol and is then refused,
  although its trimmed form parses.
\<close>

theorem trailing_whitespace_not_trimmed:
  "scan_units units (ustr ''10A '') = (ustr ''10A '', None) \<and>
   scan_units units (strip (ustr ''10A '')) = (ustr ''10'', Some ''ampere'') \<and>
   value_parser (Str (ustr ''10A '')) = Inl ValueError \<and>
   value_parser (Str (strip (ustr ''10A ''))) = Inr (Fin 10, Some ''ampere'')"
  by (simp add: parser_defs)

text \<open>
  C6, amended: the unit symbols are matched against the end of the string as given. When a
  symbol matches, whitespace between the rest and the symbol, and whitespace in front, is
  trimmed from what remains; a string that ends in whitespace matches no unit. The labels
  \<open>10 A\<close> and \<open>10A\<close> both parse to 10 ampere.
\<close>

theorem unit_scan_on_raw_input:
  assumes "(s, name) \<in> set units" and "\<forall>c\<in>set ws. isspace c"
  shows "scan_units units (body @ ws @ s) = (strip body, Some name) \<and>
         (v \<noteq> [] \<and> isspace (last v) \<longrightarrow> scan_units units v = (v, None)) \<and>
         value_parser (Str (ustr ''10 A'')) = Inr (Fin 10, Some ''ampere'') \<and>
         value_parser (Str (ustr ''10A'')) = Inr (Fin 10, Some ''ampere'')"
proof -
  have s: "s \<noteq> []" using assms(1) by (rule units_keys_nonempty)
  have "endswith (body @ ws @ s) s" by (simp add: endswith_def)
  with assms(1) have "scan_units units (body @ ws @ s) =
      (strip (slice_to_neg (body @ ws @ s) (length s)), Some name)"
    using scan_units_match[of units s name] by simp
  moreover have "slice_to_neg (body @ ws @ s) (length s) = body @ ws"
    using s by (simp add: slice_to_neg_def)
  ultimately have a: "scan_units units (body @ ws @ s) = (strip body, Some name)"
    using strip_append_space[OF assms(2)] by simp
  have b: "scan_units units v = (v, None)" if "v \<noteq> []" "isspace (last v)"
  proof (rule scan_units_no_match)
    show "\<forall>(t, m)\<in>set units. \<not> endswith v t"
      using units_last_not_space endswith_last[of v] that(2) by fastforce
  qed
  have c: "value_parser (Str (ustr ''10 A'')) = Inr (Fin 10, Some ''ampere'')"
    by (simp add: parser_defs)
  have d: "value_parser (Str (ustr ''10A'')) = Inr (Fin 10, Some ''ampere'')"
    by (simp add: parser_defs)
  from a b c d show ?thesis by blast
qed

theorem unit_scan_on_raw_input_witness:
  "(ustr ''A'', ''ampere'') \<in> set units \<and> list_all isspace (ustr ''   '') \<and>
   scan_units units (ustr '' 10'' @ ustr ''   '' @ ustr ''A'') = (ustr ''10'', Some ''ampere'') \<and>
   scan_units units (ustr ''10A '') = (ustr ''10A '', None)"
proof -
  have h1: "(ustr ''A'', ''ampere'') \<in> set units" by (simp add: units_def)
  have h2: "\<forall>c\<in>set (ustr ''   ''). isspace c" by (simp add: ustr_def isspace_def)
  have h3: "strip (ustr '' 10'') = ustr ''10''" by (simp add: parser_defs)
  have h4: "ustr ''10A '' \<noteq> [] \<and> isspace (last (ustr ''10A ''))"
    by (simp add: ustr_def isspace_def)
  from unit_scan_on_raw_input[OF h1 h2, of "ustr '' 10''" "ustr ''10A ''"] h1 h2 h3 h4
  show ?thesis by (simp add: list_all_iff)
qed

section \<open>Infix notation\<close>

lemma first_split_from_append:
  "sep \<noteq> [] \<Longrightarrow> first_split_from sep acc s = Some (l, r) \<Longrightarrow> rev acc @ s = l @ sep @ r"
proof (induction s arbitrary: acc)
  case Nil
  then show ?case by simp
next
  case (Cons c cs)
  show ?case
  proof (cases "prefix sep (c # cs)")
    case True
    then obtain zs where zs: "c # cs = sep @ zs" by (auto simp: prefix_def)
    with Cons.prems(1) have d: "drop (length sep - 1) cs = zs"
      by (cases sep) auto
    from True Cons.prems(2) have "l = rev acc" "r = drop (length sep - 1) cs"
      by simp_all
    with d zs show ?thesis by simp
  next
    case False
    with Cons.prems(2) have "first_split_from sep (c # acc) cs = Some (l, r)" by simp
    from Cons.IH[OF Cons.prems(1) this] show ?thesis by simp
  qed
qed

lemma split_from_first_split:
  "sep \<noteq> [] \<Longrightarrow> first_split_from sep acc s = Some (l, r) \<Longrightarrow>
   split_from sep acc s = l # split_from sep [] r"
  by (induction s arbitrary: acc) (auto split: if_splits)

lemma split_from_no_occurrence:
  "\<not> contains s sep \<Longrightarrow> split_from sep acc s = [rev acc @ s]"
  by (induction s arbitrary: acc) auto

lemma split_single_occurrence:
  assumes "sep \<noteq> []" "first_split s sep = Some (l, r)" "\<not> contains r sep"
  shows "split s sep = [l, r]"
  using split_from_first_split[of sep "[]" s l r] split_from_no_occurrence[of r sep "[]"] assms
  by (simp add: split_def first_split_def)

lemma scan_infixes_first:
  "find (\<lambda>(k, m). contains v k) tbl = Some (k, m) \<Longrightarrow>
   scan_infixes tbl v =
     (case split v k of p0 # p1 # _ \<Rightarrow> Inr (p0 @ ustr ''.'' @ p1, m) | _ \<Rightarrow> Inl IndexError)"
  by (induction tbl) (auto split: if_splits)

text \<open>
  The keys of each table are distinct, so the item met while iterating carries the value
  that \<open>infixes[test_inf]\<close> and \<open>units[test_unit]\<close> look up.
\<close>

lemma tables_distinct:
  "distinct (map fst prefixes)" "distinct (map fst infixes)" "distinct (map fst units)"
  by (simp_all add: infixes_def prefixes_def units_def ustr_def)

lemma infixes_lookup: "(k, m) \<in> set infixes \<Longrightarrow> map_of infixes k = Some m"
  using tables_distinct(2) by simp

lemma infixes_keys_nonempty: "\<forall>(k, m)\<in>set infixes. k \<noteq> []"
  by (simp add: infixes_def prefixes_def ustr_def)

lemma find_in_set: "find P xs = Some x \<Longrightarrow> x \<in> set xs"
  by (induction xs) (auto split: if_splits)

text \<open>
  C4, as stated, fails: \<open>split\<close> cuts at every occurrence of the key and only the first
  two pieces are used, so when the key occurs again the right part is not everything after
  the first occurrence. In \<open>1k2k3\<close> the literal is \<open>1.2\<close>, not \<open>1.2k3\<close> (which
  \<open>float\<close> would refuse), and the result is 1200.
\<close>

theorem repeated_infix_key_drops_tail:
  "map_of prefixes [last (ustr ''1k2k3'')] = None \<and>
   first_infix (ustr ''1k2k3'') = Some (ustr ''k'', 10 ^ 3) \<and>
   first_split (ustr ''1k2k3'') (ustr ''k'') = Some (ustr ''1'', ustr ''2k3'') \<and>
   resolve (ustr ''1k2k3'') = Inr (ustr ''1.2'', 10 ^ 3) \<and>
   resolve (ustr ''1k2k3'') \<noteq> Inr (ustr ''1'' @ ustr ''.'' @ ustr ''2k3'', 10 ^ 3) \<and>
   float_str (ustr ''1'' @ ustr ''.'' @ ustr ''2k3'') = None \<and>
   value_parser (Str (ustr ''1k2k3'')) = Inr (Fin 1200, None)"
  by (simp add: first_infix_def parser_defs)

text \<open>
  C4, amended: for a non-empty remaining string whose last character is not a prefix key,
  let \<open>k\<close> be the first key of the infix table that occurs in it and \<open>m\<close> its
  multiplier. If \<open>k\<close> does not occur again after its first occurrence, the string is cut
  there into the text before and everything after, the literal is left, a dot, right, and
  the magnitude is the parsed literal times \<open>m\<close> (\<open>ValueError\<close> if the literal is not
  a number).
\<close>

theorem infix_split_single_occurrence:
  assumes "v \<noteq> []" and "map_of prefixes [last v] = None"
    and "first_infix v = Some (k, m)"
    and "first_split v k = Some (l, r)" and "\<not> contains r k"
  shows "v = l @ k @ r \<and>
         resolve v = Inr (l @ ustr ''.'' @ r, m) \<and>
         magnitude v =
           (case float_str (l @ ustr ''.'' @ r) of
              None \<Rightarrow> Inl ValueError
            | Some x \<Rightarrow> Inr (fmul x m))"
proof -
  from assms(3) have f: "find (\<lambda>(k, m). contains v k) infixes = Some (k, m)"
    by (simp add: first_infix_def)
  then have "(k, m) \<in> set infixes" by (rule find_in_set)
  with infixes_keys_nonempty have k: "k \<noteq> []" by auto
  from first_split_from_append[OF k, of "[]" v l r] assms(4)
  have v: "v = l @ k @ r" by (simp add: first_split_def)
  have "split v k = [l, r]" using k assms(4,5) by (rule split_single_occurrence)
  with scan_infixes_first[OF f] have "scan_infixes infixes v = Inr (l @ ustr ''.'' @ r, m)"
    by simp
  with assms(1,2) have r: "resolve v = Inr (l @ ustr ''.'' @ r, m)"
    by (simp add: resolve_def)
  then have "magnitude v =
           (case float_str (l @ ustr ''.'' @ r) of
              None \<Rightarrow> Inl ValueError
            | Some x \<Rightarrow> Inr (fmul x m))"
    by (simp add: magnitude_def)
  with v r show ?thesis by simp
qed

theorem infix_split_single_occurrence_witness:
  "ustr ''3k3'' \<noteq> [] \<and> map_of prefixes [last (ustr ''3k3'')] = None \<and>
   first_infix (ustr ''3k3'') = Some (ustr ''k'', 10 ^ 3) \<and>
   first_split (ustr ''3k3'') (ustr ''k'') = Some (ustr ''3'', ustr ''3'') \<and>
   \<not> contains (ustr ''3'') (ustr ''k'') \<and>
   resolve (ustr ''3k3'') = Inr (ustr ''3.3'', 10 ^ 3) \<and>
   magnitude (ustr ''3k3'') = Inr (Fin 3300)"
proof -
  have h1: "ustr ''3k3'' \<noteq> []" by (simp add: ustr_def)
  have h2: "map_of prefixes [last (ustr ''3k3'')] = None" by (simp add: parser_defs)
  have h3: "first_infix (ustr ''3k3'') = Some (ustr ''k'', 10 ^ 3)"
    by (simp add: first_infix_def parser_defs)
  have h4: "first_split (ustr ''3k3'') (ustr ''k'') = Some (ustr ''3'', ustr ''3'')"
    by (simp add: parser_defs)
  have h5: "\<not> contains (ustr ''3'') (ustr ''k'')" by (simp add: ustr_def)
  have "float_str (ustr ''3'' @ ustr ''.'' @ ustr ''3'') = Some (Fin (33 / 10))"
    by (simp add: parser_defs)
  with infix_split_single_occurrence[OF h1 h2 h3 h4 h5] h1 h2 h3 h4 h5
  show ?thesis by (simp add: ustr_def)
qed

section \<open>Equivalent forms of one value\<close>






































end
